theory Spec2Isabelle
  imports Main "HOL-Library.AList" "HOL-Library.Sublist" "HOL-Library.Infinite_Set"
    "HOL-Library.Multiset"
begin

section \<open>File manager server: model of index.js\<close>

text \<open>
  The development embeds the handlers of \<^verbatim>\<open>FileManagerServer\<close> (index.js) that the
  specification talks about: \<^verbatim>\<open>findFiles\<close>, \<^verbatim>\<open>handleUnzip\<close>,
  \<^verbatim>\<open>handleUnzipAndMoveSvgs\<close>, \<^verbatim>\<open>handleCreateDirectory\<close>,
  \<^verbatim>\<open>handleMoveLatestSvg\<close>, \<^verbatim>\<open>handleCopyFile\<close>, \<^verbatim>\<open>handleMoveFile\<close> and
  \<^verbatim>\<open>handleListFiles\<close>. The platform they run on (JavaScript strings, node:path,
  node:fs/promises, adm-zip) is modelled first, in its POSIX flavour: \<^verbatim>\<open>/\<close> is the only
  separator, names are case sensitive.
\<close>

subsection \<open>JavaScript strings\<close>

text \<open>Strings are byte lists; \<^verbatim>\<open>toLowerCase\<close> is modelled on the ASCII letters.\<close>

definition toLowerChar :: "char \<Rightarrow> char" where
  "toLowerChar c =
     (case map_of (zip ''ABCDEFGHIJKLMNOPQRSTUVWXYZ'' ''abcdefghijklmnopqrstuvwxyz'') c of
        Some l \<Rightarrow> l
      | None \<Rightarrow> c)"

definition toLowerCase :: "string \<Rightarrow> string" where
  "toLowerCase s = map toLowerChar s"

definition startsWith :: "string \<Rightarrow> string \<Rightarrow> bool" where
  "startsWith s x = (take (length x) s = x)"

definition endsWith :: "string \<Rightarrow> string \<Rightarrow> bool" where
  "endsWith s x = (length x \<le> length s \<and> drop (length s - length x) s = x)"

definition includes_char :: "string \<Rightarrow> char \<Rightarrow> bool" where
  "includes_char s c = (c \<in> set s)"

text \<open>\<^verbatim>\<open>s.split(c)\<close> for a one-character separator: always at least one piece.\<close>

fun split_char :: "char \<Rightarrow> string \<Rightarrow> string list" where
  "split_char c [] = [[]]"
| "split_char c (x # xs) =
     (if x = c then [] # split_char c xs
      else (case split_char c xs of [] \<Rightarrow> [[x]] | w # ws \<Rightarrow> (x # w) # ws))"

text \<open>\<^verbatim>\<open>xs.join(sep)\<close>.\<close>

fun join_str :: "string \<Rightarrow> string list \<Rightarrow> string" where
  "join_str sep [] = []"
| "join_str sep [w] = w"
| "join_str sep (w # v # ws) = w @ sep @ join_str sep (v # ws)"


text \<open>A non-negative integer inside a template literal: its decimal digits.\<close>

definition digit_char :: "nat \<Rightarrow> char" where
  "digit_char d = ''0123456789'' ! d"

fun show_nat :: "nat \<Rightarrow> string" where
  "show_nat n =
     (if n < 10 then [digit_char n] else show_nat (n div 10) @ [digit_char (n mod 10)])"

text \<open>
  \<^verbatim>\<open>(size / d).toFixed(2)\<close> for \<open>d\<close> a power of two. The quotient of an integer below
  \<open>2^53\<close> by a power of two is exact in a double, and \<^verbatim>\<open>toFixed(2)\<close> returns the
  integer \<open>n\<close> nearest to \<open>100 * x\<close> (the larger one on a tie) printed with two decimals,
  so no floating point is left: \<open>n = (100 * size + d div 2) div d\<close>.
\<close>

definition toFixed2 :: "nat \<Rightarrow> nat \<Rightarrow> string" where
  "toFixed2 sz d =
     (let n = (100 * sz + d div 2) div d;
          frac = n mod 100
      in show_nat (n div 100) @ ''.'' @ (if frac < 10 then ''0'' else []) @ show_nat frac)"

definition nl :: string where
  "nl = [CHR 0x0A]"

definition backslash :: char where
  "backslash = CHR 0x5C"

text \<open>A string argument of a tool call: absent, or a string. \<^verbatim>\<open>!x\<close> holds for both
  \<^verbatim>\<open>undefined\<close> and the empty string; \<^verbatim>\<open>x || d\<close> is \<open>orElse x d\<close>.\<close>

definition truthy :: "string option \<Rightarrow> bool" where
  "truthy x = (case x of None \<Rightarrow> False | Some s \<Rightarrow> s \<noteq> [])"

definition str :: "string option \<Rightarrow> string" where
  "str x = (case x of None \<Rightarrow> [] | Some s \<Rightarrow> s)"

definition orElse :: "string option \<Rightarrow> string \<Rightarrow> string" where
  "orElse x d = (if truthy x then str x else d)"




subsection \<open>node:path (POSIX)\<close>

text \<open>
  An absolute, normalised path is kept as the list of its components (the root is \<open>[]\<close>);
  \<open>showPath\<close> prints it. \<^verbatim>\<open>path.join(dir, s)\<close> and \<^verbatim>\<open>path.resolve(s)\<close> parse the
  string \<open>s\<close> into components, dropping empty and \<^verbatim>\<open>.\<close> segments and resolving
  \<^verbatim>\<open>..\<close> against what precedes it, which is their normalisation. A trailing separator
  is not kept.
\<close>

type_synonym path = "string list"

definition showPath :: "path \<Rightarrow> string" where
  "showPath p = ''/'' @ join_str ''/'' p"

definition join_step :: "path \<Rightarrow> string \<Rightarrow> path" where
  "join_step p seg =
     (if seg = [] \<or> seg = ''.'' then p else if seg = ''..'' then butlast p else p @ [seg])"

definition path_join :: "path \<Rightarrow> string \<Rightarrow> path" where
  "path_join p s = foldl join_step p (split_char CHR ''/'' s)"

text \<open>\<^verbatim>\<open>path.basename(s)\<close> of a string: the last non-empty segment.\<close>

definition basename :: "string \<Rightarrow> string" where
  "basename s =
     (case filter (\<lambda>w. w \<noteq> []) (split_char CHR ''/'' s) of
        [] \<Rightarrow> []
      | w # ws \<Rightarrow> last (w # ws))"

text \<open>\<^verbatim>\<open>path.basename(p)\<close> of a path value.\<close>

definition basename_path :: "path \<Rightarrow> string" where
  "basename_path p = (if p = [] then [] else last p)"

text \<open>
  \<^verbatim>\<open>path.extname(s)\<close>: from the last dot of the base name to its end; empty when there
  is no dot, when the last dot is the first character of the base name, or when the base
  name is \<^verbatim>\<open>..\<close>.
\<close>

definition extname :: "string \<Rightarrow> string" where
  "extname s =
     (let b = basename s;
          suf = rev (takeWhile (\<lambda>c. c \<noteq> CHR ''.'') (rev b))
      in if CHR ''.'' \<notin> set b then []
         else if length suf + 1 = length b then []
         else if b = ''..'' then []
         else CHR ''.'' # suf)"

text \<open>
  \<^verbatim>\<open>path.basename(s, sfx)\<close>: the base name without \<open>sfx\<close> when it ends with it and is
  not equal to it; the empty string when the whole of \<open>s\<close> is \<open>sfx\<close>.
\<close>

definition basename_ext :: "string \<Rightarrow> string \<Rightarrow> string" where
  "basename_ext s sfx =
     (if sfx \<noteq> [] \<and> length sfx \<le> length s
      then (if sfx = s then []
            else (let b = basename s
                  in if endsWith b sfx \<and> b \<noteq> sfx then take (length b - length sfx) b else b))
      else basename s)"

subsection \<open>The file system\<close>

text \<open>
  The file system is a finite tree. A regular file has its bytes and its modification
  time (milliseconds, as \<^verbatim>\<open>Date\<close> compares them); a directory lists its entries in the
  order \<^verbatim>\<open>readdir\<close> reports them; \<open>Symlink\<close> stands for every entry whose
  \<^verbatim>\<open>Dirent\<close> is neither \<^verbatim>\<open>isFile()\<close> nor \<^verbatim>\<open>isDirectory()\<close> (a symbolic link, also
  one to a directory, a socket, a device). Lookups do not resolve through such an entry.
\<close>

datatype node = File (fcontent: string) (fmtime: int) | Dir "(string \<times> node) list" | Symlink

fun lookup :: "node \<Rightarrow> path \<Rightarrow> node option" where
  "lookup n [] = Some n"
| "lookup (Dir es) (c # cs) = (case map_of es c of None \<Rightarrow> None | Some n \<Rightarrow> lookup n cs)"
| "lookup _ (c # cs) = None"

text \<open>\<^verbatim>\<open>fs.access(p)\<close> resolves (True) or rejects (False).\<close>

definition access :: "node \<Rightarrow> path \<Rightarrow> bool" where
  "access fs p = (lookup fs p \<noteq> None)"

text \<open>\<^verbatim>\<open>fs.stat(p)\<close>, applied by the handlers to regular files only: size and mtime.\<close>

definition stat :: "node \<Rightarrow> path \<Rightarrow> (nat \<times> int) option" where
  "stat fs p = (case lookup fs p of Some (File c m) \<Rightarrow> Some (length c, m) | _ \<Rightarrow> None)"

text \<open>\<^verbatim>\<open>fs.mkdir(p, {recursive: true})\<close>: creates what is missing on the way; fails
  (None) when a component exists and is not a directory.\<close>

fun mkdir_p :: "node \<Rightarrow> path \<Rightarrow> node option" where
  "mkdir_p (Dir es) [] = Some (Dir es)"
| "mkdir_p (Dir es) (c # cs) =
     (case map_of es c of
        None \<Rightarrow> (case mkdir_p (Dir []) cs of
                   None \<Rightarrow> None
                 | Some d \<Rightarrow> Some (Dir (es @ [(c, d)])))
      | Some n \<Rightarrow> (case mkdir_p n cs of
                     None \<Rightarrow> None
                   | Some n' \<Rightarrow> Some (Dir (AList.update c n' es))))"
| "mkdir_p _ _ = None"

text \<open>Writing a node at a path whose parent is an existing directory.\<close>

fun insert_at :: "node \<Rightarrow> path \<Rightarrow> node \<Rightarrow> node option" where
  "insert_at n [] x = None"
| "insert_at (Dir es) [c] x = Some (Dir (AList.update c x es))"
| "insert_at (Dir es) (c # cs) x =
     (case map_of es c of
        None \<Rightarrow> None
      | Some n \<Rightarrow> (case insert_at n cs x of
                     None \<Rightarrow> None
                   | Some n' \<Rightarrow> Some (Dir (AList.update c n' es))))"
| "insert_at _ _ _ = None"

fun remove_at :: "node \<Rightarrow> path \<Rightarrow> node" where
  "remove_at (Dir es) [c] = Dir (AList.delete c es)"
| "remove_at (Dir es) (c # cs) =
     (case map_of es c of
        None \<Rightarrow> Dir es
      | Some n \<Rightarrow> Dir (AList.update c (remove_at n cs) es))"
| "remove_at n _ = n"

text \<open>\<^verbatim>\<open>fs.rename(src, dst)\<close>: the node at \<open>src\<close> is taken out and written at \<open>dst\<close>;
  fails when \<open>src\<close> is missing or the parent of \<open>dst\<close> is not a directory. The handlers
  call it on a \<open>dst\<close> that they have just probed to be free.\<close>

definition rename :: "node \<Rightarrow> path \<Rightarrow> path \<Rightarrow> node option" where
  "rename fs src dst =
     (case lookup fs src of
        None \<Rightarrow> None
      | Some n \<Rightarrow> if src = [] then None else insert_at (remove_at fs src) dst n)"

text \<open>\<^verbatim>\<open>fs.copyFile(src, dst)\<close>: \<open>src\<close> must be a regular file; the copy is written at
  time \<open>now\<close>.\<close>

definition copyFile :: "int \<Rightarrow> node \<Rightarrow> path \<Rightarrow> path \<Rightarrow> node option" where
  "copyFile now fs src dst =
     (case lookup fs src of
        Some (File c m) \<Rightarrow> insert_at fs dst (File c now)
      | _ \<Rightarrow> None)"

subsection \<open>adm-zip\<close>

text \<open>
  The archive library is outside the repository. An archive is a list of entries;
  \<open>readZip\<close> (a parameter) parses the bytes of a file, None when they are no archive.
  \<^verbatim>\<open>extractAllTo(target, overwrite)\<close> follows the library's documentation: each entry
  is written below \<open>target\<close> at its name, normalised so that it cannot leave \<open>target\<close>;
  a directory entry is created; a file entry whose path exists is kept as it is when
  \<open>overwrite\<close> is false or the path is a directory, and is replaced otherwise. The second
  component of the result tells whether every entry went through; the file system
  returned is the one reached.
\<close>

record zipentry =
  entryName :: string
  isDirectory :: bool
  edata :: string
  etime :: int

definition entryPath :: "path \<Rightarrow> zipentry \<Rightarrow> path" where
  "entryPath targetPath e = targetPath @ path_join [] (entryName e)"

definition extractEntry :: "bool \<Rightarrow> path \<Rightarrow> node \<Rightarrow> zipentry \<Rightarrow> node option" where
  "extractEntry overwrite targetPath fs e =
     (let p = entryPath targetPath e
      in if isDirectory e then mkdir_p fs p
         else (case lookup fs p of
                 Some (Dir es) \<Rightarrow> Some fs
               | Some _ \<Rightarrow> if overwrite then insert_at fs p (File (edata e) (etime e)) else Some fs
               | None \<Rightarrow> (case mkdir_p fs (butlast p) of
                            None \<Rightarrow> None
                          | Some fs1 \<Rightarrow> insert_at fs1 p (File (edata e) (etime e)))))"

fun extractAllTo :: "node \<Rightarrow> path \<Rightarrow> bool \<Rightarrow> zipentry list \<Rightarrow> node \<times> bool" where
  "extractAllTo fs targetPath overwrite [] = (fs, True)"
| "extractAllTo fs targetPath overwrite (e # es) =
     (case extractEntry overwrite targetPath fs e of
        None \<Rightarrow> (fs, False)
      | Some fs' \<Rightarrow> extractAllTo fs' targetPath overwrite es)"

subsection \<open>Process environment, arguments, results\<close>

record env =
  homedir :: path
  cwd :: path
  now :: int
  toLocaleString :: "int \<Rightarrow> string"
  readZip :: "string \<Rightarrow> zipentry list option"

text \<open>\<^verbatim>\<open>new AdmZip(zipPath)\<close>: reads and parses the file.\<close>

definition openZip :: "env \<Rightarrow> node \<Rightarrow> path \<Rightarrow> zipentry list option" where
  "openZip env fs zipPath =
     (case lookup fs zipPath of Some (File c m) \<Rightarrow> readZip env c | _ \<Rightarrow> None)"

text \<open>\<^verbatim>\<open>path.resolve(s)\<close>: against the working directory unless \<open>s\<close> is absolute.\<close>

definition path_resolve :: "env \<Rightarrow> string \<Rightarrow> path" where
  "path_resolve env s = (if startsWith s ''/'' then path_join [] s else path_join (cwd env) s)"

definition DOWNLOADS_DIR :: "env \<Rightarrow> path" where
  "DOWNLOADS_DIR env = path_join (homedir env) ''Downloads''"

definition DOCUMENTS_DIR :: "env \<Rightarrow> path" where
  "DOCUMENTS_DIR env = path_join (homedir env) (''OneDrive'' @ [backslash] @ ''Documents'')"

text \<open>The argument bag of a tool call, with the fields and types of the input schemas.\<close>

record args =
  arg_filename :: "string option"
  arg_destination :: "string option"
  arg_destination_folder :: "string option"
  arg_source :: "string option"
  arg_name :: "string option"
  arg_location :: "string option"
  arg_directory :: "string option"
  arg_file_type :: "string option"
  arg_limit :: "int option"

definition no_args :: args where
  "no_args = \<lparr>arg_filename = None, arg_destination = None, arg_destination_folder = None,
     arg_source = None, arg_name = None, arg_location = None, arg_directory = None,
     arg_file_type = None, arg_limit = None\<rparr>"

text \<open>
  A handler either throws or returns a text. \<open>Thrown m\<close> is \<^verbatim>\<open>throw new Error(m)\<close> of the
  handler itself; \<open>Lib_error c\<close> is a rejection of the library call \<open>c\<close>, whose message
  is not modelled. The file system reached comes with the outcome, since what a handler
  did before it threw stays done.
\<close>

datatype error = Thrown string | Lib_error string

type_synonym outcome = "error + string"

subsection \<open>The collision loop\<close>

text \<open>
  Every handler that moves or copies a file runs the same loop on its destination
  (handleMoveSvg, handleUnzipAndMoveSvgs, handleMoveLatestSvg, handleCopyFile,
  handleMoveFile): while \<^verbatim>\<open>fs.access(finalDestPath)\<close> resolves, the next candidate
  \<^verbatim>\<open>base_counter ext\<close> is tried and the counter incremented. \<open>candidate\<close> is the body's
  assignment, \<open>probe\<close> the loop on its two variables; the handlers start it at
  \<open>path_join destDir sourceName\<close> with counter 1.
\<close>

definition candidate :: "path \<Rightarrow> string \<Rightarrow> nat \<Rightarrow> path" where
  "candidate destDir sourceName counter =
     (let ext = extname sourceName;
          base = basename_ext sourceName ext
      in path_join destDir (base @ ''_'' @ show_nat counter @ ext))"

function probe :: "node \<Rightarrow> path \<Rightarrow> string \<Rightarrow> path \<Rightarrow> nat \<Rightarrow> path" where
  "probe fs destDir sourceName finalDestPath counter =
     (if access fs finalDestPath
      then probe fs destDir sourceName (candidate destDir sourceName counter) (counter + 1)
      else finalDestPath)"
  by pat_completeness auto

subsection \<open>findFiles\<close>

text \<open>
  \<open>walk\<close> is the inner function: the loop over the entries of the current directory,
  with the recursive call on a directory entry, whose \<^verbatim>\<open>readdir\<close> yields the entries
  of that node. \<^verbatim>\<open>readdir\<close> of the start directory rejects when it is missing or not a
  directory.
\<close>

fun walk :: "string \<Rightarrow> path \<Rightarrow> (string \<times> node) list \<Rightarrow> path list" where
  "walk extension currentDir [] = []"
| "walk extension currentDir ((name, Dir es) # entries) =
     walk extension (path_join currentDir name) es @ walk extension currentDir entries"
| "walk extension currentDir ((name, File c m) # entries) =
     (if endsWith (toLowerCase name) extension then [path_join currentDir name] else [])
     @ walk extension currentDir entries"
| "walk extension currentDir ((name, Symlink) # entries) = walk extension currentDir entries"

definition findFiles :: "node \<Rightarrow> path \<Rightarrow> string \<Rightarrow> error + path list" where
  "findFiles fs dir extension =
     (case lookup fs dir of
        Some (Dir es) \<Rightarrow> Inr (walk extension dir es)
      | _ \<Rightarrow> Inl (Lib_error ''readdir''))"

subsection \<open>handleUnzip\<close>

definition handleUnzip :: "env \<Rightarrow> args \<Rightarrow> node \<Rightarrow> outcome \<times> node" where
  "handleUnzip env args fs =
     (let filename = arg_filename args
      in if \<not> truthy filename then (Inl (Thrown ''filename is required''), fs)
         else
           let zipPath = path_join (DOWNLOADS_DIR env) (str filename)
           in if \<not> access fs zipPath
              then (Inl (Thrown (''Zip file not found: '' @ str filename)), fs)
              else
                let destDir =
                      (if truthy (arg_destination args)
                       then (let dest = toLowerCase (str (arg_destination args))
                             in if dest = ''downloads'' then DOWNLOADS_DIR env
                                else if dest = ''documents'' then DOCUMENTS_DIR env
                                else path_resolve env (str (arg_destination args)))
                       else DOWNLOADS_DIR env)
                in (case openZip env fs zipPath of
                      None \<Rightarrow> (Inl (Lib_error ''AdmZip''), fs)
                    | Some entries \<Rightarrow>
                        let extractPath = path_join destDir (basename_ext (str filename) ''.zip'')
                        in (case mkdir_p fs extractPath of
                              None \<Rightarrow> (Inl (Lib_error ''mkdir''), fs)
                            | Some fs1 \<Rightarrow>
                                (case extractAllTo fs1 extractPath True entries of
                                   (fs2, False) \<Rightarrow> (Inl (Lib_error ''extractAllTo''), fs2)
                                 | (fs2, True) \<Rightarrow>
                                     (Inr (''Successfully unzipped '' @ str filename @ '' to ''
                                           @ showPath extractPath @ nl @ nl @ ''Extracted ''
                                           @ show_nat (length entries) @ '' files:'' @ nl
                                           @ join_str nl (map entryName entries)), fs2)))))"

subsection \<open>handleUnzipAndMoveSvgs\<close>

text \<open>The loop of step 4 over the files found, with the list of moved names.\<close>

fun moveEach :: "path \<Rightarrow> node \<Rightarrow> path list \<Rightarrow> string list \<Rightarrow> (error + string list) \<times> node" where
  "moveEach destDir fs [] movedFiles = (Inr movedFiles, fs)"
| "moveEach destDir fs (svgPath # svgFiles) movedFiles =
     (let filename = basename_path svgPath;
          destPath = path_join destDir filename;
          finalDestPath = probe fs destDir filename destPath 1
      in case rename fs svgPath finalDestPath of
           None \<Rightarrow> (Inl (Lib_error ''rename''), fs)
         | Some fs' \<Rightarrow> moveEach destDir fs' svgFiles (movedFiles @ [basename_path finalDestPath]))"

text \<open>The emoji of the success message (U+1F389), as its UTF-8 bytes.\<close>

definition party :: string where
  "party = [CHR 0xF0, CHR 0x9F, CHR 0x8E, CHR 0x89]"

definition handleUnzipAndMoveSvgs :: "env \<Rightarrow> args \<Rightarrow> node \<Rightarrow> outcome \<times> node" where
  "handleUnzipAndMoveSvgs env args fs =
     (let filename = arg_filename args;
          destinationFolder = arg_destination_folder args
      in if \<not> truthy filename then (Inl (Thrown ''filename is required''), fs)
         else if \<not> truthy destinationFolder
         then (Inl (Thrown ''destination_folder is required''), fs)
         else
           let zipPath = path_join (DOWNLOADS_DIR env) (str filename)
           in if \<not> access fs zipPath
              then (Inl (Thrown (''Zip file not found: '' @ str filename)), fs)
              else
                (case openZip env fs zipPath of
                   None \<Rightarrow> (Inl (Lib_error ''AdmZip''), fs)
                 | Some entries \<Rightarrow>
                     let extractPath =
                           path_join (DOWNLOADS_DIR env) (basename_ext (str filename) ''.zip'')
                     in (case mkdir_p fs extractPath of
                           None \<Rightarrow> (Inl (Lib_error ''mkdir''), fs)
                         | Some fs1 \<Rightarrow>
                             (case extractAllTo fs1 extractPath True entries of
                                (fs2, False) \<Rightarrow> (Inl (Lib_error ''extractAllTo''), fs2)
                              | (fs2, True) \<Rightarrow>
                                  (case findFiles fs2 extractPath ''.svg'' of
                                     Inl e \<Rightarrow> (Inl e, fs2)
                                   | Inr svgFiles \<Rightarrow>
                                       if length svgFiles = 0
                                       then (Inr (''Successfully unzipped '' @ str filename @ '' (''
                                                  @ show_nat (length entries) @ '' files) to ''
                                                  @ showPath extractPath @ nl @ nl
                                                  @ ''But no SVG files were found in the archive.''),
                                             fs2)
                                       else
                                         let destDir =
                                               path_join (DOCUMENTS_DIR env) (str destinationFolder)
                                         in (case mkdir_p fs2 destDir of
                                               None \<Rightarrow> (Inl (Lib_error ''mkdir''), fs2)
                                             | Some fs3 \<Rightarrow>
                                                 (case moveEach destDir fs3 svgFiles [] of
                                                    (Inl e, fs4) \<Rightarrow> (Inl e, fs4)
                                                  | (Inr movedFiles, fs4) \<Rightarrow>
                                                      (Inr (''Success! '' @ party @ nl @ nl
                                                            @ ''1. Unzipped '' @ str filename @ '' (''
                                                            @ show_nat (length entries)
                                                            @ '' total files)'' @ nl @ ''2. Found ''
                                                            @ show_nat (length svgFiles)
                                                            @ '' SVG file(s)'' @ nl
                                                            @ ''3. Moved all SVGs to Documents''
                                                            @ [backslash] @ str destinationFolder
                                                            @ nl @ nl @ ''Moved files:'' @ nl
                                                            @ join_str nl movedFiles), fs4))))))))"

subsection \<open>handleCreateDirectory\<close>

definition handleCreateDirectory :: "env \<Rightarrow> args \<Rightarrow> node \<Rightarrow> outcome \<times> node" where
  "handleCreateDirectory env args fs =
     (let name = arg_name args
      in if \<not> truthy name then (Inl (Thrown ''name is required''), fs)
         else
           let location = toLowerCase (orElse (arg_location args) ''documents'');
               baseDir = (if location = ''documents'' then DOCUMENTS_DIR env
                          else if location = ''downloads'' then DOWNLOADS_DIR env
                          else path_resolve env location);
               newDir = path_join baseDir (str name)
           in if access fs newDir
              then (Inr (''Directory already exists: '' @ showPath newDir), fs)
              else (case mkdir_p fs newDir of
                      None \<Rightarrow> (Inl (Lib_error ''mkdir''), fs)
                    | Some fs1 \<Rightarrow> (Inr (''Successfully created directory: '' @ showPath newDir), fs1)))"

subsection \<open>handleMoveLatestSvg\<close>

text \<open>\<^verbatim>\<open>xs.reduce(f)\<close> without an initial value: the first element starts the fold; on
  the empty array it throws a TypeError (None).\<close>

definition reduce :: "('a \<Rightarrow> 'a \<Rightarrow> 'a) \<Rightarrow> 'a list \<Rightarrow> 'a option" where
  "reduce f xs = (case xs of [] \<Rightarrow> None | x # rest \<Rightarrow> Some (foldl f x rest))"

text \<open>\<^verbatim>\<open>Promise.all\<close> of the \<^verbatim>\<open>stat\<close> calls: the pairs \<^verbatim>\<open>{filePath, mtime}\<close>, or a
  rejection when one of them rejects.\<close>

fun statAll :: "node \<Rightarrow> path list \<Rightarrow> (path \<times> int) list option" where
  "statAll fs [] = Some []"
| "statAll fs (filePath # rest) =
     (case stat fs filePath of
        None \<Rightarrow> None
      | Some (sz, mtime) \<Rightarrow>
          (case statAll fs rest of None \<Rightarrow> None | Some r \<Rightarrow> Some ((filePath, mtime) # r)))"

definition later :: "path \<times> int \<Rightarrow> path \<times> int \<Rightarrow> path \<times> int" where
  "later latest current = (if snd current > snd latest then current else latest)"

definition handleMoveLatestSvg :: "env \<Rightarrow> args \<Rightarrow> node \<Rightarrow> outcome \<times> node" where
  "handleMoveLatestSvg env args fs =
     (let destinationFolder = arg_destination_folder args
      in if \<not> truthy destinationFolder
         then (Inl (Thrown ''destination_folder is required''), fs)
         else
           let sourceDir = (if truthy (arg_source args) then path_resolve env (str (arg_source args))
                            else DOWNLOADS_DIR env)
           in if \<not> access fs sourceDir
              then (Inl (Thrown (''Source directory not found: '' @ showPath sourceDir)), fs)
              else
                (case findFiles fs sourceDir ''.svg'' of
                   Inl e \<Rightarrow> (Inl e, fs)
                 | Inr svgFiles \<Rightarrow>
                     if length svgFiles = 0
                     then (Inr (''No SVG files found in '' @ showPath sourceDir), fs)
                     else
                       (case statAll fs svgFiles of
                          None \<Rightarrow> (Inl (Lib_error ''stat''), fs)
                        | Some fileStats \<Rightarrow>
                            (case reduce later fileStats of
                               None \<Rightarrow> (Inl (Lib_error ''reduce''), fs)
                             | Some latest \<Rightarrow>
                                 let latestSvg = fst latest;
                                     destDir = path_join (DOCUMENTS_DIR env) (str destinationFolder)
                                 in (case mkdir_p fs destDir of
                                       None \<Rightarrow> (Inl (Lib_error ''mkdir''), fs)
                                     | Some fs1 \<Rightarrow>
                                         let svgName = basename_path latestSvg;
                                             finalDestPath =
                                               probe fs1 destDir svgName (path_join destDir svgName) 1
                                         in (case rename fs1 latestSvg finalDestPath of
                                               None \<Rightarrow> (Inl (Lib_error ''rename''), fs1)
                                             | Some fs2 \<Rightarrow>
                                                 (Inr (''Successfully moved the latest SVG file to ''
                                                       @ showPath finalDestPath @ nl @ nl
                                                       @ ''File: '' @ svgName), fs2)))))))"

subsection \<open>handleCopyFile and handleMoveFile\<close>

text \<open>
  Both handlers determine the source directory and the source file with the same
  statements (lines 769 to 793 and 843 to 867): \<open>sourceDir_of\<close> and \<open>locate\<close>.
\<close>

definition sourceDir_of :: "env \<Rightarrow> args \<Rightarrow> path" where
  "sourceDir_of env args =
     (let sourceArg = toLowerCase (orElse (arg_source args) ''downloads'')
      in if sourceArg = ''downloads'' then DOWNLOADS_DIR env
         else if sourceArg = ''documents'' then DOCUMENTS_DIR env
         else path_resolve env sourceArg)"

definition locate :: "node \<Rightarrow> path \<Rightarrow> string \<Rightarrow> error + path" where
  "locate fs sourceDir filename =
     (let sourceFile = path_join sourceDir filename
      in if access fs sourceFile then Inr sourceFile
         else (case findFiles fs sourceDir (extname filename) of
                 Inl e \<Rightarrow> Inl e
               | Inr foundFiles \<Rightarrow>
                   (case find (\<lambda>f. basename_path f = filename) foundFiles of
                      Some match \<Rightarrow> Inr match
                    | None \<Rightarrow> Inl (Thrown (''File not found: '' @ filename @ '' in ''
                                           @ showPath sourceDir)))))"

definition destDir_of :: "env \<Rightarrow> args \<Rightarrow> path" where
  "destDir_of env args =
     (let destFolder = orElse (arg_destination_folder args) []
      in if destFolder \<noteq> [] then path_join (DOCUMENTS_DIR env) destFolder
         else DOCUMENTS_DIR env)"

definition handleCopyFile :: "env \<Rightarrow> args \<Rightarrow> node \<Rightarrow> outcome \<times> node" where
  "handleCopyFile env args fs =
     (let filename = arg_filename args
      in if \<not> truthy filename then (Inl (Thrown ''filename is required''), fs)
         else
           let sourceDir = sourceDir_of env args
           in (case locate fs sourceDir (str filename) of
                 Inl e \<Rightarrow> (Inl e, fs)
               | Inr sourceFile \<Rightarrow>
                   let destDir = destDir_of env args
                   in (case mkdir_p fs destDir of
                         None \<Rightarrow> (Inl (Lib_error ''mkdir''), fs)
                       | Some fs1 \<Rightarrow>
                           let sourceName = basename_path sourceFile;
                               finalDestPath =
                                 probe fs1 destDir sourceName (path_join destDir sourceName) 1
                           in (case copyFile (now env) fs1 sourceFile finalDestPath of
                                 None \<Rightarrow> (Inl (Lib_error ''copyFile''), fs1)
                               | Some fs2 \<Rightarrow>
                                   (Inr (''Successfully copied '' @ sourceName @ '' to ''
                                         @ showPath finalDestPath), fs2)))))"

definition handleMoveFile :: "env \<Rightarrow> args \<Rightarrow> node \<Rightarrow> outcome \<times> node" where
  "handleMoveFile env args fs =
     (let filename = arg_filename args
      in if \<not> truthy filename then (Inl (Thrown ''filename is required''), fs)
         else
           let sourceDir = sourceDir_of env args
           in (case locate fs sourceDir (str filename) of
                 Inl e \<Rightarrow> (Inl e, fs)
               | Inr sourceFile \<Rightarrow>
                   let destDir = destDir_of env args
                   in (case mkdir_p fs destDir of
                         None \<Rightarrow> (Inl (Lib_error ''mkdir''), fs)
                       | Some fs1 \<Rightarrow>
                           let sourceName = basename_path sourceFile;
                               finalDestPath =
                                 probe fs1 destDir sourceName (path_join destDir sourceName) 1
                           in (case rename fs1 sourceFile finalDestPath of
                                 None \<Rightarrow> (Inl (Lib_error ''rename''), fs1)
                               | Some fs2 \<Rightarrow>
                                   (Inr (''Successfully moved '' @ str filename @ '' to ''
                                         @ showPath finalDestPath), fs2)))))"

subsection \<open>handleListFiles\<close>

record fileDetail =
  fd_name :: string
  fd_size :: nat
  fd_modified :: int
  fd_extension :: string



definition displaySize :: "nat \<Rightarrow> string" where
  "displaySize sz =
     (if sz > 1024 * 1024 then toFixed2 sz (1024 * 1024) @ '' MB''
      else if sz > 1024 then toFixed2 sz 1024 @ '' KB''
      else show_nat sz @ '' bytes'')"

text \<open>The callback of \<^verbatim>\<open>limitedFiles.map\<close>.\<close>

definition renderFile :: "env \<Rightarrow> nat \<Rightarrow> fileDetail \<Rightarrow> string" where
  "renderFile env index file =
     (let dateStr = toLocaleString env (fd_modified file);
          badge = (if index = 0 then '' [LATEST]'' else [])
      in fd_name file @ badge @ nl @ ''  Size: '' @ displaySize (fd_size file)
         @ '' | Modified: '' @ dateStr)"




section \<open>Facts about the platform model\<close>

subsection \<open>Strings and paths\<close>

lemma split_char_nonempty: "split_char c s \<noteq> []"
  by (induction s) (auto split: list.splits)

lemma split_char_no_sep: "w \<in> set (split_char c s) \<Longrightarrow> c \<notin> set w"
proof (induction s arbitrary: w)
  case Nil
  then show ?case by simp
next
  case (Cons x xs)
  show ?case
  proof (cases "x = c")
    case True
    with Cons show ?thesis by auto
  next
    case False
    obtain v vs where sp: "split_char c xs = v # vs"
      using split_char_nonempty[of c xs] by (cases "split_char c xs") auto
    with Cons.prems False have "w = x # v \<or> w \<in> set vs" by auto
    then show ?thesis
    proof
      assume "w = x # v"
      moreover have "c \<notin> set v" using Cons.IH[of v] sp by simp
      ultimately show ?thesis using False by auto
    next
      assume "w \<in> set vs"
      then show ?thesis using Cons.IH[of w] sp by simp
    qed
  qed
qed

lemma split_char_single: "c \<notin> set s \<Longrightarrow> split_char c s = [s]"
  by (induction s) auto

lemma split_char_length: "w \<in> set (split_char c s) \<Longrightarrow> length w \<le> length s"
proof (induction s arbitrary: w)
  case Nil
  then show ?case by simp
next
  case (Cons x xs)
  obtain v vs where sp: "split_char c xs = v # vs"
    using split_char_nonempty[of c xs] by (cases "split_char c xs") auto
  show ?case
  proof (cases "x = c")
    case True
    with Cons.prems have "w = [] \<or> w \<in> set (split_char c xs)" by auto
    then show ?thesis using Cons.IH[of w] by auto
  next
    case False
    with Cons.prems sp have "w = x # v \<or> w \<in> set vs" by auto
    then show ?thesis using Cons.IH[of v] Cons.IH[of w] sp by auto
  qed
qed

lemma basename_in_split:
  "basename s = [] \<or> basename s \<in> set (split_char CHR ''/'' s)"
proof (cases "filter (\<lambda>w. w \<noteq> []) (split_char CHR ''/'' s)")
  case Nil
  then show ?thesis by (simp add: basename_def)
next
  case (Cons w ws)
  then have "basename s = last (w # ws)" by (simp add: basename_def)
  moreover have "last (w # ws) \<in> set (filter (\<lambda>w. w \<noteq> []) (split_char CHR ''/'' s))"
    unfolding Cons by (rule last_in_set) simp
  ultimately show ?thesis by auto
qed

lemma basename_no_sep: "CHR ''/'' \<notin> set (basename s)"
  using basename_in_split[of s] split_char_no_sep[of "basename s" "CHR ''/''" s] by auto

lemma basename_length: "length (basename s) \<le> length s"
  using basename_in_split[of s] split_char_length[of "basename s" "CHR ''/''" s] by auto

lemma extname_no_sep: "CHR ''/'' \<notin> set (extname s)"
proof -
  have "set (rev (takeWhile (\<lambda>c. c \<noteq> CHR ''.'') (rev (basename s)))) \<subseteq> set (basename s)"
    using set_takeWhileD by fastforce
  then show ?thesis using basename_no_sep[of s]
    by (auto simp: extname_def Let_def)
qed

lemma basename_ext_no_sep: "CHR ''/'' \<notin> set (basename_ext s x)"
  using basename_no_sep[of s] by (auto simp: basename_ext_def Let_def dest: in_set_takeD)

text \<open>Stem and extension, as the loop splits a name, make up its base name again.\<close>

lemma stem_ext: "basename_ext s (extname s) @ extname s = basename s"
proof (cases "extname s = []")
  case True
  then show ?thesis by (simp add: basename_ext_def)
next
  case False
  define b where "b = basename s"
  define tw where "tw = takeWhile (\<lambda>c. c \<noteq> CHR ''.'') (rev b)"
  define e where "e = extname s"
  from False have dot: "CHR ''.'' \<in> set b" and len: "length tw + 1 \<noteq> length b"
    and ext: "e = CHR ''.'' # rev tw"
    by (auto simp: extname_def Let_def b_def tw_def e_def split: if_splits)
  from dot have "CHR ''.'' \<in> set (rev b)" by simp
  then have dw: "dropWhile (\<lambda>c. c \<noteq> CHR ''.'') (rev b) \<noteq> []" by auto
  then obtain r where r: "dropWhile (\<lambda>c. c \<noteq> CHR ''.'') (rev b) = CHR ''.'' # r"
    using hd_dropWhile[OF dw] by (cases "dropWhile (\<lambda>c. c \<noteq> CHR ''.'') (rev b)") auto
  have "rev b = tw @ CHR ''.'' # r"
    using takeWhile_dropWhile_id[of "\<lambda>c. c \<noteq> CHR ''.''" "rev b"] r by (simp add: tw_def)
  then have "rev (rev b) = rev (tw @ CHR ''.'' # r)" by (rule arg_cong)
  then have b: "b = rev r @ e" using ext by simp
  from len have rne: "r \<noteq> []" unfolding b ext by auto
  have lb: "length b = length r + length e" unfolding b by simp
  have bs: "length b \<le> length s" unfolding b_def by (rule basename_length)
  have l1: "length e \<le> length s" using lb bs by simp
  have ne: "e \<noteq> s" using lb bs rne by auto
  have ew: "endsWith b e" unfolding endsWith_def b by simp
  have bne: "b \<noteq> e" using lb rne by auto
  have tk: "take (length b - length e) b = rev r" unfolding b by simp
  have ene: "e \<noteq> []" using ext by simp
  have "basename_ext s e = rev r"
    using l1 ne ew bne tk ene by (simp add: basename_ext_def Let_def b_def[symmetric])
  then show ?thesis using b by (simp add: e_def b_def)
qed

lemma digit_char_inj: "a < 10 \<Longrightarrow> b < 10 \<Longrightarrow> digit_char a = digit_char b \<Longrightarrow> a = b"
proof -
  assume a: "a < 10" and b: "b < 10" and e: "digit_char a = digit_char b"
  from a have "a \<in> {0,1,2,3,4,5,6,7,8,9}" by auto
  moreover from b have "b \<in> {0,1,2,3,4,5,6,7,8,9}" by auto
  ultimately show ?thesis using e by (auto simp: digit_char_def)
qed

lemma digit_char_not_sep: "d < 10 \<Longrightarrow> digit_char d \<noteq> CHR ''/''"
proof -
  assume "d < 10"
  then have "d \<in> {0,1,2,3,4,5,6,7,8,9}" by auto
  then show ?thesis by (auto simp: digit_char_def)
qed

declare show_nat.simps [simp del]

lemma show_nat_nonempty: "show_nat n \<noteq> []"
  by (subst show_nat.simps) simp

lemma show_nat_no_sep: "CHR ''/'' \<notin> set (show_nat n)"
proof (induction n rule: show_nat.induct)
  case (1 n)
  show ?case
  proof (cases "n < 10")
    case True
    then show ?thesis using digit_char_not_sep[of n] by (subst show_nat.simps) auto
  next
    case False
    then show ?thesis using 1 digit_char_not_sep[of "n mod 10"] by (subst show_nat.simps) auto
  qed
qed

text \<open>Two numbers with the same decimal digits are equal.\<close>

lemma show_nat_inj: "show_nat n = show_nat m \<Longrightarrow> n = m"
proof (induction n arbitrary: m rule: show_nat.induct)
  case (1 n)
  show ?case
  proof (cases "n < 10")
    case True
    then have sn: "show_nat n = [digit_char n]" by (subst show_nat.simps) simp
    show ?thesis
    proof (cases "m < 10")
      case mT: True
      then have "show_nat m = [digit_char m]" by (subst show_nat.simps) simp
      with sn "1.prems" True mT show ?thesis by (auto dest: digit_char_inj)
    next
      case False
      then have "show_nat m = show_nat (m div 10) @ [digit_char (m mod 10)]"
        by (subst show_nat.simps) simp
      with sn "1.prems" show ?thesis using show_nat_nonempty[of "m div 10"] by auto
    qed
  next
    case False
    then have sn: "show_nat n = show_nat (n div 10) @ [digit_char (n mod 10)]"
      by (subst show_nat.simps) simp
    show ?thesis
    proof (cases "m < 10")
      case True
      then have "show_nat m = [digit_char m]" by (subst show_nat.simps) simp
      with sn "1.prems" show ?thesis using show_nat_nonempty[of "n div 10"] by auto
    next
      case mF: False
      then have sm: "show_nat m = show_nat (m div 10) @ [digit_char (m mod 10)]"
        by (subst show_nat.simps) simp
      from sn sm "1.prems" have e1: "show_nat (n div 10) = show_nat (m div 10)"
        and e2: "digit_char (n mod 10) = digit_char (m mod 10)" by auto
      from "1.IH"[OF False e1] have "n div 10 = m div 10" .
      moreover from e2 have "n mod 10 = m mod 10" by (rule digit_char_inj[rotated 2]) simp_all
      ultimately show ?thesis by (metis div_mult_mod_eq)
    qed
  qed
qed

subsection \<open>Candidates of the collision loop\<close>

definition candidate_name :: "string \<Rightarrow> nat \<Rightarrow> string" where
  "candidate_name sourceName counter =
     basename_ext sourceName (extname sourceName) @ ''_'' @ show_nat counter @ extname sourceName"

text \<open>A candidate is one more component below the destination directory.\<close>

lemma candidate_eq: "candidate d s k = d @ [candidate_name s k]"
proof -
  let ?n = "candidate_name s k"
  have nosep: "CHR ''/'' \<notin> set ?n"
    using basename_ext_no_sep extname_no_sep show_nat_no_sep by (simp add: candidate_name_def)
  have us: "CHR ''_'' \<in> set ?n" by (simp add: candidate_name_def)
  then have "?n \<noteq> [] \<and> ?n \<noteq> ''.'' \<and> ?n \<noteq> ''..''" by auto
  then show ?thesis using split_char_single[OF nosep]
    by (simp add: candidate_def Let_def path_join_def join_step_def candidate_name_def)
qed

lemma candidate_name_inj: "inj (candidate_name s)"
  by (rule injI) (simp add: candidate_name_def show_nat_inj)

subsection \<open>Lookups\<close>

lemma lookup_append:
  "lookup fs (p @ q) = (case lookup fs p of None \<Rightarrow> None | Some n \<Rightarrow> lookup n q)"
  by (induction fs p rule: lookup.induct) (auto split: option.splits)

lemma access_child:
  assumes "access fs (d @ [n])"
  shows "\<exists>es. lookup fs d = Some (Dir es) \<and> n \<in> fst ` set es"
proof -
  from assms obtain m where m: "lookup fs d = Some m" and l: "lookup m [n] \<noteq> None"
    by (auto simp: access_def lookup_append split: option.splits)
  from l obtain es where es: "m = Dir es" by (cases m) auto
  with l have "map_of es n \<noteq> None" by (auto split: option.splits)
  then have "n \<in> fst ` set es" by (simp add: map_of_eq_None_iff)
  with m es show ?thesis by blast
qed

subsection \<open>The collision loop terminates\<close>

text \<open>
  A directory has finitely many entries and the candidates are pairwise different names
  below the destination directory, so from every counter on there is a free candidate.
\<close>

lemma gap_exists: "\<exists>k\<ge>c. \<not> access fs (candidate d s k)"
proof (cases "\<exists>es. lookup fs d = Some (Dir es)")
  case False
  then have "\<not> access fs (candidate d s c)"
    using access_child[of fs d "candidate_name s c"] by (auto simp: candidate_eq)
  then show ?thesis by blast
next
  case True
  then obtain es where es: "lookup fs d = Some (Dir es)" by blast
  let ?A = "candidate_name s -` (fst ` set es)"
  have "finite ?A" by (rule finite_vimageI[OF _ candidate_name_inj]) simp
  then have "infinite (- ?A)" by (simp add: finite_compl)
  then obtain k where k: "k \<ge> c" "k \<in> - ?A"
    by (auto simp: infinite_nat_iff_unbounded_le)
  have "\<not> access fs (candidate d s k)"
  proof
    assume "access fs (candidate d s k)"
    then obtain es' where "lookup fs d = Some (Dir es')" "candidate_name s k \<in> fst ` set es'"
      using access_child[of fs d "candidate_name s k"] by (auto simp: candidate_eq)
    with es k(2) show False by auto
  qed
  with k(1) show ?thesis by blast
qed

definition gap :: "node \<Rightarrow> path \<Rightarrow> string \<Rightarrow> nat \<Rightarrow> nat" where
  "gap fs d s c = (LEAST k. c \<le> k \<and> \<not> access fs (candidate d s k))"

lemma gap_props: "c \<le> gap fs d s c \<and> \<not> access fs (candidate d s (gap fs d s c))"
  unfolding gap_def using gap_exists[of c fs d s]
  by (metis (mono_tags, lifting) LeastI)

lemma gap_step:
  assumes "access fs (candidate d s c)"
  shows "gap fs d s (Suc c) = gap fs d s c"
proof -
  have "\<And>k. (Suc c \<le> k \<and> \<not> access fs (candidate d s k)) = (c \<le> k \<and> \<not> access fs (candidate d s k))"
    using assms by (metis Suc_leD Suc_leI le_neq_implies_less)
  then show ?thesis by (simp add: gap_def)
qed

termination probe
proof (relation "measure (\<lambda>(fs, d, s, final, c). if access fs final then Suc (gap fs d s c - c) else 0)")
  show "wf (measure (\<lambda>(fs, d, s, final, c). if access fs final then Suc (gap fs d s c - c) else 0))"
    by simp
next
  fix fs d s final c
  assume a: "access fs final"
  show "((fs, d, s, candidate d s c, c + 1), (fs, d, s, final, c))
        \<in> measure (\<lambda>(fs, d, s, final, c). if access fs final then Suc (gap fs d s c - c) else 0)"
  proof (cases "access fs (candidate d s c)")
    case False
    with a show ?thesis by simp
  next
    case True
    have "gap fs d s c \<noteq> c" using gap_props[of c fs d s] True by metis
    moreover have "c \<le> gap fs d s c" using gap_props[of c fs d s] by simp
    ultimately show ?thesis using a True gap_step[OF True] by simp
  qed
qed

declare probe.simps [simp del]




subsection \<open>File-system operations\<close>


lemma mkdir_p_is_dir: "mkdir_p fs p = Some fs' \<Longrightarrow> \<exists>es. lookup fs' p = Some (Dir es)"
proof (induction fs p arbitrary: fs' rule: mkdir_p.induct)
  case (1 es)
  then show ?case by auto
next
  case (2 es c cs)
  then show ?case
    by (auto split: option.splits simp: AList.update_conv' map_add_def)
qed simp_all

lemma mkdir_p_keeps_file:
  "mkdir_p fs p = Some fs' \<Longrightarrow> lookup fs q = Some (File c m) \<Longrightarrow> lookup fs' q = Some (File c m)"
proof (induction fs p arbitrary: fs' q rule: mkdir_p.induct)
  case (1 es)
  then show ?case by simp
next
  case (2 es d ds)
  from "2.prems"(2) obtain x xs where q: "q = x # xs" by (cases q) auto
  show ?case
  proof (cases "map_of es d")
    case None
    with "2.prems" q show ?thesis
      by (auto split: option.splits simp: map_add_def)
  next
    case (Some n)
    with "2.prems" obtain n' where n': "mkdir_p n ds = Some n'" and fs': "fs' = Dir (AList.update d n' es)"
      by (auto split: option.splits)
    show ?thesis
    proof (cases "x = d")
      case True
      with "2.prems"(2) q Some have "lookup n xs = Some (File c m)" by simp
      from "2.IH"(2)[OF Some n' this] show ?thesis using q fs' True by (simp add: AList.update_conv')
    next
      case False
      with "2.prems"(2) q fs' show ?thesis by (simp add: AList.update_conv')
    qed
  qed
qed simp_all

lemma mkdir_p_keeps_access: "mkdir_p fs p = Some fs' \<Longrightarrow> access fs q \<Longrightarrow> access fs' q"
proof (induction fs p arbitrary: fs' q rule: mkdir_p.induct)
  case (1 es)
  then show ?case by simp
next
  case (2 es d ds)
  show ?case
  proof (cases q)
    case Nil
    then show ?thesis by (simp add: access_def)
  next
    case (Cons x xs)
    show ?thesis
    proof (cases "map_of es d")
      case None
      with "2.prems" Cons show ?thesis
        by (auto split: option.splits simp: map_add_def access_def)
    next
      case (Some n)
      with "2.prems" obtain n' where n': "mkdir_p n ds = Some n'" and fs': "fs' = Dir (AList.update d n' es)"
        by (auto split: option.splits)
      show ?thesis
      proof (cases "x = d")
        case True
        with "2.prems"(2) Cons Some have "access n xs" by (simp add: access_def)
        from "2.IH"(2)[OF Some n' this] show ?thesis using Cons fs' True
          by (simp add: AList.update_conv' access_def)
      next
        case False
        with "2.prems"(2) Cons fs' show ?thesis by (simp add: AList.update_conv' access_def)
      qed
    qed
  qed
qed (simp_all add: access_def)

lemma insert_at_same: "insert_at fs p x = Some fs' \<Longrightarrow> lookup fs' p = Some x"
  by (induction fs p x arbitrary: fs' rule: insert_at.induct)
     (auto split: option.splits simp: AList.update_conv')







text \<open>The definitions that evaluate a path expression on concrete strings.\<close>

lemmas path_eval = path_join_def join_step_def basename_def extname_def basename_ext_def
  endsWith_def startsWith_def candidate_def Let_def digit_char_def basename_path_def



section \<open>Claims\<close>

subsection \<open>Concrete inputs\<close>

text \<open>An environment and a home directory on which the theorems are run: the home is
  \<^verbatim>\<open>/home/u\<close>, with its Downloads and its documents directory.\<close>

definition env0 :: env where
  "env0 = \<lparr>homedir = [''home'', ''u''], cwd = [''srv''], now = 100,
            toLocaleString = (\<lambda>t. ''t'' @ show_nat (nat t)), readZip = (\<lambda>c. None)\<rparr>"

definition docs0 :: string where
  "docs0 = ''OneDrive'' @ [backslash] @ ''Documents''"

definition home0 :: "(string \<times> node) list \<Rightarrow> (string \<times> node) list \<Rightarrow> node" where
  "home0 downloads documents =
     Dir [(''home'', Dir [(''u'', Dir [(''Downloads'', Dir downloads), (docs0, Dir documents)])])]"

definition fs_collision :: node where
  "fs_collision = home0 [(''report.pdf'', File ''new'' 7)] [(''report.pdf'', File ''old'' 3)]"


lemmas env_eval = env0_def docs0_def home0_def DOWNLOADS_DIR_def DOCUMENTS_DIR_def backslash_def
  no_args_def access_def

definition fs_svgs :: node where
  "fs_svgs = home0 [(''a.svg'', File ''A'' 5), (''sub'', Dir [(''b.svg'', File ''B'' 9)]),
                    (''c.svg'', File ''C'' 9), (''d.png'', File ''D'' 20)] []"

definition nested :: "(string \<times> node) list" where
  "nested = [(''other.txt'', File ''o'' 4),
             (''sub'', Dir [(''deep'', Dir [(''report.pdf'', File ''first'' 1)])]),
             (''second'', Dir [(''report.pdf'', File ''second'' 2), (''Report.PDF'', File ''upper'' 3)])]"

definition fs_nested :: node where
  "fs_nested = home0 nested []"

definition args_file :: "string \<Rightarrow> args" where
  "args_file f = no_args\<lparr>arg_filename := Some f\<rparr>"

text \<open>Definitions unfolded when a handler is run on a concrete input.\<close>

lemmas str_eval = toLowerCase_def toLowerChar_def truthy_def str_def orElse_def
  includes_char_def

lemmas fs_eval = findFiles_def stat_def rename_def copyFile_def

lemmas num_eval = toFixed2_def Let_def show_nat.simps digit_char_def

lemma sourceDir_default: "sourceDir_of env0 (args_file f) = [''home'', ''u'', ''Downloads'']"
  by (simp add: sourceDir_of_def args_file_def str_eval env_eval path_eval)

subsection \<open>C1: collision-free naming\<close>




subsection \<open>C2: the latest file\<close>










subsection \<open>C3: size rendering\<close>

text \<open>The hundredths that \<open>toFixed2\<close> prints are the nearest to the quotient, the larger
  on a tie, for an even divisor.\<close>

lemma toFixed2_nearest:
  fixes sz d :: nat
  assumes "0 < d" "even d"
  shows "2 * ((100 * sz + d div 2) div d) * d \<le> 200 * sz + d
         \<and> 200 * sz + d < 2 * ((100 * sz + d div 2) div d + 1) * d"
proof -
  define m where "m = 100 * sz + d div 2"
  define q where "q = m div d"
  from assms(2) have "2 * (d div 2) = d" by simp
  then have m2: "2 * m = 200 * sz + d" by (simp add: m_def)
  have lo: "q * d \<le> m" by (simp add: q_def)
  have "m < Suc q * d" unfolding q_def using assms(1)
    by (metis dividend_less_div_times mult.commute mult_Suc add.commute)
  then have hi: "m < (q + 1) * d" by simp
  from lo have "2 * (q * d) \<le> 2 * m" by (rule mult_le_mono2)
  moreover from hi have "2 * m < 2 * ((q + 1) * d)" by simp
  ultimately have "2 * q * d \<le> 200 * sz + d \<and> 200 * sz + d < 2 * (q + 1) * d"
    using m2 by (simp add: mult.assoc)
  then show ?thesis by (simp add: q_def m_def)
qed

text \<open>
  C3 (as the code has it). The rendered size of a listed file is the byte count up to and
  including 1024 bytes, the size in KB with two decimals above 1024 bytes up to and
  including 1048576 bytes, and the size in MB with two decimals above 1048576 bytes.
\<close>

theorem size_rendering:
  "(sz \<le> 1024 \<longrightarrow> displaySize sz = show_nat sz @ '' bytes'')
   \<and> (1024 < sz \<and> sz \<le> 1048576 \<longrightarrow> displaySize sz = toFixed2 sz 1024 @ '' KB'')
   \<and> (1048576 < sz \<longrightarrow> displaySize sz = toFixed2 sz 1048576 @ '' MB'')
   \<and> renderFile env index file =
       fd_name file @ (if index = 0 then '' [LATEST]'' else []) @ nl @ ''  Size: ''
       @ displaySize (fd_size file) @ '' | Modified: '' @ toLocaleString env (fd_modified file)"
  by (simp add: displaySize_def renderFile_def Let_def)

theorem size_rendering_witness:
  "displaySize 500 = ''500 bytes'' \<and> displaySize 1536 = ''1.50 KB''
   \<and> displaySize 3145728 = ''3.00 MB''"
  using size_rendering[of 500] size_rendering[of 1536] size_rendering[of 3145728]
  by (simp add: num_eval)

text \<open>
  The specification has the two boundaries on the other side: at exactly 1024 bytes the
  code prints bytes, not KB, and at exactly 1048576 bytes it prints KB, not MB.
\<close>

theorem size_rendering_boundary:
  "displaySize 1024 = ''1024 bytes'' \<and> displaySize 1024 \<noteq> toFixed2 1024 1024 @ '' KB''
   \<and> displaySize 1048576 = ''1024.00 KB''
   \<and> displaySize 1048576 \<noteq> toFixed2 1048576 (1024 * 1024) @ '' MB''"
  by (simp add: displaySize_def num_eval)

subsection \<open>C4: composite location tokens\<close>








subsection \<open>C5: the result set of the finder\<close>

text \<open>
  C5 asks that a suffix in upper case finds the same files as its lower-case form. The
  finder lower-cases the names but not the suffix: with \<^verbatim>\<open>.SVG\<close> it finds nothing in a
  tree where \<^verbatim>\<open>.svg\<close> finds three files, and copy_file does not find the file
  \<^verbatim>\<open>Report.PDF\<close> that is in a subdirectory of the source directory, because the
  fallback passes the extension \<^verbatim>\<open>.PDF\<close> of the filename to the finder.
\<close>

theorem finder_upper_case_suffix:
  "findFiles fs_svgs [''home'', ''u'', ''Downloads''] ''.svg''
     = Inr [[''home'', ''u'', ''Downloads'', ''a.svg''],
            [''home'', ''u'', ''Downloads'', ''sub'', ''b.svg''],
            [''home'', ''u'', ''Downloads'', ''c.svg'']]
   \<and> findFiles fs_svgs [''home'', ''u'', ''Downloads''] ''.SVG'' = Inr []
   \<and> lookup fs_nested [''home'', ''u'', ''Downloads'', ''second'', ''Report.PDF'']
       = Some (File ''upper'' 3)
   \<and> handleCopyFile env0 (args_file ''Report.PDF'') fs_nested
       = (Inl (Thrown ''File not found: Report.PDF in /home/u/Downloads''), fs_nested)"
proof -
  have 1: "findFiles fs_svgs [''home'', ''u'', ''Downloads''] ''.svg''
     = Inr [[''home'', ''u'', ''Downloads'', ''a.svg''],
            [''home'', ''u'', ''Downloads'', ''sub'', ''b.svg''],
            [''home'', ''u'', ''Downloads'', ''c.svg'']]"
    and 2: "findFiles fs_svgs [''home'', ''u'', ''Downloads''] ''.SVG'' = Inr []"
    by (simp_all add: fs_svgs_def home0_def fs_eval path_eval str_eval)
  have 3: "lookup fs_nested [''home'', ''u'', ''Downloads'', ''second'', ''Report.PDF'']
       = Some (File ''upper'' 3)"
    by (simp add: fs_nested_def nested_def home0_def)
  have t: "truthy (arg_filename (args_file ''Report.PDF''))"
    and s: "str (arg_filename (args_file ''Report.PDF'')) = ''Report.PDF''"
    by (simp_all add: args_file_def truthy_def str_def)
  have 4: "handleCopyFile env0 (args_file ''Report.PDF'') fs_nested
       = (Inl (Thrown ''File not found: Report.PDF in /home/u/Downloads''), fs_nested)"
    unfolding handleCopyFile_def Let_def locate_def sourceDir_default s
    using t
    by (simp add: fs_nested_def nested_def home0_def access_def fs_eval path_eval str_eval
        showPath_def)
  from 1 2 3 4 show ?thesis by blast
qed

subsection \<open>C6: order and counts of a listing\<close>



















subsection \<open>C7: missing arguments\<close>

text \<open>
  C7. A handler whose required field is absent from the argument bag (or is the empty
  string) throws the error naming that field and returns the file system it was given:
  filename for unzip_file, copy_file, move_file and unzip_and_move_svgs,
  destination_folder for move_latest_svg and (filename being there) for
  unzip_and_move_svgs, name for create_directory.
\<close>

theorem missing_argument:
  "(\<not> truthy (arg_filename args) \<longrightarrow>
      handleUnzip env args fs = (Inl (Thrown ''filename is required''), fs)
      \<and> handleCopyFile env args fs = (Inl (Thrown ''filename is required''), fs)
      \<and> handleMoveFile env args fs = (Inl (Thrown ''filename is required''), fs)
      \<and> handleUnzipAndMoveSvgs env args fs = (Inl (Thrown ''filename is required''), fs))
   \<and> (\<not> truthy (arg_destination_folder args) \<longrightarrow>
      handleMoveLatestSvg env args fs = (Inl (Thrown ''destination_folder is required''), fs)
      \<and> (truthy (arg_filename args) \<longrightarrow>
           handleUnzipAndMoveSvgs env args fs
             = (Inl (Thrown ''destination_folder is required''), fs)))
   \<and> (\<not> truthy (arg_name args) \<longrightarrow>
      handleCreateDirectory env args fs = (Inl (Thrown ''name is required''), fs))"
  by (simp add: handleUnzip_def handleCopyFile_def handleMoveFile_def handleUnzipAndMoveSvgs_def
      handleMoveLatestSvg_def handleCreateDirectory_def Let_def)

theorem missing_argument_witness:
  "handleUnzip env0 no_args fs_collision = (Inl (Thrown ''filename is required''), fs_collision)
   \<and> handleCopyFile env0 no_args fs_collision = (Inl (Thrown ''filename is required''), fs_collision)
   \<and> handleMoveFile env0 no_args fs_collision = (Inl (Thrown ''filename is required''), fs_collision)
   \<and> handleUnzipAndMoveSvgs env0 no_args fs_collision
       = (Inl (Thrown ''filename is required''), fs_collision)
   \<and> handleMoveLatestSvg env0 no_args fs_collision
       = (Inl (Thrown ''destination_folder is required''), fs_collision)
   \<and> handleUnzipAndMoveSvgs env0 (no_args\<lparr>arg_filename := Some ''a.zip''\<rparr>) fs_collision
       = (Inl (Thrown ''destination_folder is required''), fs_collision)
   \<and> handleCreateDirectory env0 no_args fs_collision
       = (Inl (Thrown ''name is required''), fs_collision)"
  using missing_argument[of no_args env0 fs_collision]
    missing_argument[of "no_args\<lparr>arg_filename := Some ''a.zip''\<rparr>" env0 fs_collision]
  by (simp add: no_args_def truthy_def)

subsection \<open>C8: move with collision\<close>



subsection \<open>The regular files of a tree\<close>




subsection \<open>C9: the recursive fallback of copy_file and move_file\<close>












subsection \<open>C10: extraction overwrites\<close>

lemma below_is_dir:
  "lookup fs p = Some x \<Longrightarrow> prefix q p \<Longrightarrow> q \<noteq> p \<Longrightarrow> \<exists>es. lookup fs q = Some (Dir es)"
proof -
  assume l: "lookup fs p = Some x" and pre: "prefix q p" and ne: "q \<noteq> p"
  from pre ne obtain c cs where p: "p = q @ c # cs"
    by (metis append_Nil2 neq_Nil_conv prefixE)
  from l obtain n where n: "lookup fs q = Some n" and r: "lookup n (c # cs) = Some x"
    unfolding p by (auto simp: lookup_append split: option.splits)
  from r show ?thesis using n by (cases n) auto
qed

lemma insert_at_keeps_file:
  "insert_at fs q x = Some fs' \<Longrightarrow> lookup fs p = Some (File c m) \<Longrightarrow> \<not> prefix q p
   \<Longrightarrow> lookup fs' p = Some (File c m)"
proof (induction fs q x arbitrary: fs' p rule: insert_at.induct)
  case (2 es d x)
  then show ?case by (cases p) (auto simp: AList.update_conv')
next
  case (3 es d v va x)
  from "3.prems"(1) obtain n n' where n: "map_of es d = Some n"
    and i: "insert_at n (v # va) x = Some n'" and fs': "fs' = Dir (AList.update d n' es)"
    by (auto split: option.splits)
  show ?case
  proof (cases p)
    case Nil
    with "3.prems" show ?thesis by simp
  next
    case (Cons a as)
    show ?thesis
    proof (cases "a = d")
      case True
      with "3.prems"(2,3) Cons n have "lookup n as = Some (File c m)" "\<not> prefix (v # va) as"
        by auto
      from "3.IH"[OF n i this] show ?thesis using Cons True fs' by (simp add: AList.update_conv')
    next
      case False
      with "3.prems"(2) Cons fs' show ?thesis by (simp add: AList.update_conv')
    qed
  qed
qed simp_all

lemma mkdir_p_not_file: "mkdir_p fs p = Some fs' \<Longrightarrow> lookup fs p \<noteq> Some (File c m)"
  using mkdir_p_is_dir[of fs p fs'] mkdir_p_keeps_file[of fs p fs' p c m] by auto

text \<open>One entry leaves every other regular file as it is.\<close>

lemma extractEntry_keeps_other:
  assumes x: "extractEntry ov t fs e = Some fs'"
    and f: "lookup fs p = Some (File c m)"
    and ne: "entryPath t e \<noteq> p"
  shows "lookup fs' p = Some (File c m)"
proof (cases "isDirectory e")
  case True
  with x have "mkdir_p fs (entryPath t e) = Some fs'" by (simp add: extractEntry_def)
  from mkdir_p_keeps_file[OF this f] show ?thesis .
next
  case False
  let ?q = "entryPath t e"
  let ?x = "File (edata e) (etime e)"
  show ?thesis
  proof (cases "lookup fs ?q")
    case None
    with x False obtain fs1 where mk: "mkdir_p fs (butlast ?q) = Some fs1"
      and ins: "insert_at fs1 ?q ?x = Some fs'"
      by (auto simp: extractEntry_def Let_def split: option.splits)
    have "\<not> prefix ?q p" using below_is_dir[OF f, of ?q] ne None by auto
    from insert_at_keeps_file[OF ins mkdir_p_keeps_file[OF mk f] this] show ?thesis .
  next
    case (Some n)
    show ?thesis
    proof (cases "\<exists>es. n = Dir es")
      case True
      with x False Some f show ?thesis by (auto simp: extractEntry_def Let_def)
    next
      case nd: False
      have np: "\<not> prefix ?q p" using below_is_dir[OF f, of ?q] ne Some nd by auto
      from x False Some nd have "fs' = fs \<or> insert_at fs ?q ?x = Some fs'"
        by (cases n) (auto simp: extractEntry_def Let_def split: if_splits)
      then show ?thesis using f insert_at_keeps_file[OF _ f np] by auto
    qed
  qed
qed

text \<open>With overwrite, a file entry whose path is a regular file replaces it.\<close>

lemma extractEntry_overwrites:
  assumes "extractEntry True t fs e = Some fs'" "\<not> isDirectory e"
    and "lookup fs (entryPath t e) = Some (File c m)"
  shows "lookup fs' (entryPath t e) = Some (File (edata e) (etime e))"
  using assms by (auto simp: extractEntry_def Let_def intro: insert_at_same)

lemma extractEntry_stays_file:
  assumes x: "extractEntry True t fs e = Some fs'" and f: "lookup fs p = Some (File c m)"
  shows "\<exists>c' m'. lookup fs' p = Some (File c' m')"
proof (cases "entryPath t e = p")
  case False
  from extractEntry_keeps_other[OF x f False] show ?thesis by blast
next
  case True
  show ?thesis
  proof (cases "isDirectory e")
    case d: True
    with x True have "mkdir_p fs p = Some fs'" by (simp add: extractEntry_def)
    from mkdir_p_not_file[OF this] f show ?thesis by blast
  next
    case False
    from extractEntry_overwrites[OF x False] f True show ?thesis by blast
  qed
qed

lemma extractAllTo_append:
  "extractAllTo fs t ov (xs @ ys) =
     (case extractAllTo fs t ov xs of
        (fs1, True) \<Rightarrow> extractAllTo fs1 t ov ys
      | (fs1, False) \<Rightarrow> (fs1, False))"
  by (induction xs arbitrary: fs) (auto split: option.splits)

lemma extractAllTo_stays_file:
  "extractAllTo fs t True es = (fs', ok) \<Longrightarrow> lookup fs p = Some (File c m)
   \<Longrightarrow> \<exists>c' m'. lookup fs' p = Some (File c' m')"
proof (induction es arbitrary: fs c m)
  case Nil
  then show ?case by simp
next
  case (Cons e es)
  show ?case
  proof (cases "extractEntry True t fs e")
    case None
    with Cons.prems show ?thesis by simp
  next
    case (Some fs1)
    from extractEntry_stays_file[OF Some Cons.prems(2)] obtain c' m'
      where "lookup fs1 p = Some (File c' m')" by blast
    moreover from Cons.prems(1) Some have "extractAllTo fs1 t True es = (fs', ok)" by simp
    ultimately show ?thesis using Cons.IH by blast
  qed
qed

lemma extractAllTo_keeps_other:
  "extractAllTo fs t ov es = (fs', ok) \<Longrightarrow> lookup fs p = Some (File c m)
   \<Longrightarrow> \<forall>e\<in>set es. entryPath t e \<noteq> p \<Longrightarrow> lookup fs' p = Some (File c m)"
proof (induction es arbitrary: fs)
  case Nil
  then show ?case by simp
next
  case (Cons e es)
  show ?case
  proof (cases "extractEntry ov t fs e")
    case None
    with Cons.prems show ?thesis by simp
  next
    case (Some fs1)
    from Cons.prems(3) have "entryPath t e \<noteq> p" by simp
    from extractEntry_keeps_other[OF Some Cons.prems(2) this]
    have "lookup fs1 p = Some (File c m)" .
    moreover from Cons.prems(1) Some have "extractAllTo fs1 t ov es = (fs', ok)" by simp
    ultimately show ?thesis using Cons.IH Cons.prems(3) by simp
  qed
qed

lemma extractAllTo_overwrites:
  assumes all: "extractAllTo fs t True (before @ e # after) = (fs', True)"
    and isfile: "\<not> isDirectory e"
    and old: "lookup fs (entryPath t e) = Some (File c m)"
    and last: "\<forall>e'\<in>set after. entryPath t e' \<noteq> entryPath t e"
  shows "lookup fs' (entryPath t e) = Some (File (edata e) (etime e))"
proof -
  obtain fs1 ok1 where b: "extractAllTo fs t True before = (fs1, ok1)" by (cases "extractAllTo fs t True before")
  with all have ok1: "ok1" and rest: "extractAllTo fs1 t True (e # after) = (fs', True)"
    by (auto simp: extractAllTo_append split: bool.splits)
  from extractAllTo_stays_file[OF b old] obtain c' m'
    where f1: "lookup fs1 (entryPath t e) = Some (File c' m')" by blast
  from rest obtain fs2 where x: "extractEntry True t fs1 e = Some fs2"
    and a: "extractAllTo fs2 t True after = (fs', True)"
    by (auto split: option.splits)
  from extractEntry_overwrites[OF x isfile f1]
  have "lookup fs2 (entryPath t e) = Some (File (edata e) (etime e))" .
  from extractAllTo_keeps_other[OF a this last] show ?thesis .
qed

text \<open>The extraction of the two handlers (lines 362 to 366 and 581 to 585): the archive
  is opened, the target directory made, and the entries extracted with
  \<open>overwrite = True\<close>.\<close>

definition extraction :: "env \<Rightarrow> node \<Rightarrow> path \<Rightarrow> path \<Rightarrow> (zipentry list \<times> node \<times> bool) option" where
  "extraction env fs zipPath extractPath =
     (case openZip env fs zipPath of
        None \<Rightarrow> None
      | Some entries \<Rightarrow>
          (case mkdir_p fs extractPath of
             None \<Rightarrow> None
           | Some fs1 \<Rightarrow> Some (entries, extractAllTo fs1 extractPath True entries)))"

lemma extraction_overwrites:
  assumes ex: "extraction env fs zipPath extractPath = Some (before @ e # after, fs2, True)"
    and isfile: "\<not> isDirectory e"
    and old: "lookup fs (entryPath extractPath e) = Some (File c m)"
    and last: "\<forall>e'\<in>set after. entryPath extractPath e' \<noteq> entryPath extractPath e"
  shows "lookup fs2 (entryPath extractPath e) = Some (File (edata e) (etime e))"
proof -
  from ex obtain fs1 where mk: "mkdir_p fs extractPath = Some fs1"
    and all: "extractAllTo fs1 extractPath True (before @ e # after) = (fs2, True)"
    by (auto simp: extraction_def split: option.splits)
  from extractAllTo_overwrites[OF all isfile mkdir_p_keeps_file[OF mk old] last] show ?thesis .
qed

definition unzipTarget :: "env \<Rightarrow> args \<Rightarrow> path" where
  "unzipTarget env args =
     path_join
       (if truthy (arg_destination args)
        then (let dest = toLowerCase (str (arg_destination args))
              in if dest = ''downloads'' then DOWNLOADS_DIR env
                 else if dest = ''documents'' then DOCUMENTS_DIR env
                 else path_resolve env (str (arg_destination args)))
        else DOWNLOADS_DIR env)
       (basename_ext (str (arg_filename args)) ''.zip'')"

definition svgTarget :: "env \<Rightarrow> args \<Rightarrow> path" where
  "svgTarget env args = path_join (DOWNLOADS_DIR env) (basename_ext (str (arg_filename args)) ''.zip'')"

definition zipPath_of :: "env \<Rightarrow> args \<Rightarrow> path" where
  "zipPath_of env args = path_join (DOWNLOADS_DIR env) (str (arg_filename args))"

lemma unzip_extraction:
  assumes ok: "handleUnzip env args fs = (Inr msg, fs')"
  shows "\<exists>entries. extraction env fs (zipPath_of env args) (unzipTarget env args)
                     = Some (entries, fs', True)"
proof -
  have t: "truthy (arg_filename args)"
    using ok by (rule_tac ccontr) (simp add: handleUnzip_def Let_def)
  have a: "access fs (zipPath_of env args)"
    using ok t by (rule_tac ccontr) (simp add: handleUnzip_def Let_def zipPath_of_def)
  obtain entries where z: "openZip env fs (zipPath_of env args) = Some entries"
    using ok t a by (cases "openZip env fs (zipPath_of env args)")
      (simp_all add: handleUnzip_def Let_def zipPath_of_def)
  obtain fs1 where mk: "mkdir_p fs (unzipTarget env args) = Some fs1"
    using ok t a z by (cases "mkdir_p fs (unzipTarget env args)")
      (simp_all add: handleUnzip_def Let_def zipPath_of_def unzipTarget_def)
  obtain fs2 b where x: "extractAllTo fs1 (unzipTarget env args) True entries = (fs2, b)"
    by (cases "extractAllTo fs1 (unzipTarget env args) True entries")
  have "b \<and> fs2 = fs'"
    using ok t a z mk x by (cases b)
      (simp_all add: handleUnzip_def Let_def zipPath_of_def unzipTarget_def)
  with z mk x show ?thesis by (simp add: extraction_def)
qed

lemma unzip_svgs_extraction:
  assumes ok: "handleUnzipAndMoveSvgs env args fs = (Inr msg, fs')"
  shows "\<exists>entries fs2 svgFiles.
           extraction env fs (zipPath_of env args) (svgTarget env args) = Some (entries, fs2, True)
           \<and> findFiles fs2 (svgTarget env args) ''.svg'' = Inr svgFiles
           \<and> (if svgFiles = [] then fs' = fs2
               else (case mkdir_p fs2 (path_join (DOCUMENTS_DIR env) (str (arg_destination_folder args))) of
                       None \<Rightarrow> False
                     | Some fs3 \<Rightarrow>
                         snd (moveEach (path_join (DOCUMENTS_DIR env) (str (arg_destination_folder args)))
                                fs3 svgFiles []) = fs'))"
proof -
  let ?dest = "path_join (DOCUMENTS_DIR env) (str (arg_destination_folder args))"
  note defs = handleUnzipAndMoveSvgs_def Let_def zipPath_of_def svgTarget_def
  have t: "truthy (arg_filename args)"
    using ok by (rule_tac ccontr) (simp add: defs)
  have d: "truthy (arg_destination_folder args)"
    using ok t by (rule_tac ccontr) (simp add: defs)
  have a: "access fs (zipPath_of env args)"
    using ok t d by (rule_tac ccontr) (simp add: defs)
  obtain entries where z: "openZip env fs (zipPath_of env args) = Some entries"
    using ok t d a by (cases "openZip env fs (zipPath_of env args)") (simp_all add: defs)
  obtain fs1 where mk: "mkdir_p fs (svgTarget env args) = Some fs1"
    using ok t d a z by (cases "mkdir_p fs (svgTarget env args)") (simp_all add: defs)
  obtain fs2 b where x: "extractAllTo fs1 (svgTarget env args) True entries = (fs2, b)"
    by (cases "extractAllTo fs1 (svgTarget env args) True entries")
  have b: "b" using ok t d a z mk x by (cases b) (simp_all add: defs)
  obtain svgFiles where f: "findFiles fs2 (svgTarget env args) ''.svg'' = Inr svgFiles"
    using ok t d a z mk x b by (cases "findFiles fs2 (svgTarget env args) ''.svg''") (simp_all add: defs)
  have "if svgFiles = [] then fs' = fs2
        else (case mkdir_p fs2 ?dest of None \<Rightarrow> False
              | Some fs3 \<Rightarrow> snd (moveEach ?dest fs3 svgFiles []) = fs')"
  proof (cases "svgFiles = []")
    case True
    then show ?thesis using ok t d a z mk x b f by (simp add: defs)
  next
    case False
    show ?thesis
    proof (cases "mkdir_p fs2 ?dest")
      case None
      then show ?thesis using ok t d a z mk x b f False by (simp add: defs)
    next
      case (Some fs3)
      obtain r fs4 where m: "moveEach ?dest fs3 svgFiles [] = (r, fs4)"
        by (cases "moveEach ?dest fs3 svgFiles []")
      then show ?thesis using ok t d a z mk x b f False Some
        by (cases r) (simp_all add: defs)
    qed
  qed
  with z mk x b f show ?thesis by (simp add: extraction_def)
qed

text \<open>
  C10. A successful unzip_file ends in the file system that the extraction with
  overwrite reaches; a successful unzip_and_move_svgs reaches that file system first and
  then moves the files it finds in the target directory. In an extraction that goes
  through, a file entry whose path held a regular file before, and which no later entry
  of the archive names again, holds the data of the entry afterwards: the file is
  replaced at the path of the entry itself, not written under a new name.
\<close>

theorem extraction_overwrite:
  "(handleUnzip env args fs = (Inr msg, fs') \<longrightarrow>
      (\<exists>entries. extraction env fs (zipPath_of env args) (unzipTarget env args)
                    = Some (entries, fs', True)))
   \<and> (handleUnzipAndMoveSvgs env args fs = (Inr msg, fs') \<longrightarrow>
      (\<exists>entries fs2 svgFiles.
          extraction env fs (zipPath_of env args) (svgTarget env args) = Some (entries, fs2, True)
          \<and> findFiles fs2 (svgTarget env args) ''.svg'' = Inr svgFiles
          \<and> (if svgFiles = [] then fs' = fs2
              else (case mkdir_p fs2 (path_join (DOCUMENTS_DIR env) (str (arg_destination_folder args))) of
                      None \<Rightarrow> False
                    | Some fs3 \<Rightarrow>
                        snd (moveEach (path_join (DOCUMENTS_DIR env) (str (arg_destination_folder args)))
                               fs3 svgFiles []) = fs'))))
   \<and> (extraction env fs zipPath extractPath = Some (before @ e # after, fsx, True)
        \<and> \<not> isDirectory e
        \<and> lookup fs (entryPath extractPath e) = Some (File c m)
        \<and> (\<forall>e'\<in>set after. entryPath extractPath e' \<noteq> entryPath extractPath e) \<longrightarrow>
      lookup fsx (entryPath extractPath e) = Some (File (edata e) (etime e)))"
  using unzip_extraction[of env args fs msg fs'] unzip_svgs_extraction[of env args fs msg fs']
    extraction_overwrites[of env fs zipPath extractPath before e after fsx c m]
  by blast

definition pack_a :: zipentry where
  "pack_a = \<lparr>entryName = ''a.txt'', isDirectory = False, edata = ''new-a'', etime = 77\<rparr>"

definition pack_icon :: zipentry where
  "pack_icon = \<lparr>entryName = ''art/icon.svg'', isDirectory = False, edata = ''<svg/>'', etime = 78\<rparr>"

definition env_zip :: env where
  "env_zip = env0\<lparr>readZip := (\<lambda>c. if c = ''PK-pack'' then Some [pack_a, pack_icon] else None)\<rparr>"

definition fs_zip :: node where
  "fs_zip = home0 [(''pack.zip'', File ''PK-pack'' 60),
                   (''pack'', Dir [(''a.txt'', File ''old-a'' 5)])] []"

definition args_unzip :: args where
  "args_unzip = no_args\<lparr>arg_filename := Some ''pack.zip'', arg_destination_folder := Some ''Icons''\<rparr>"

lemmas zip_eval = env_zip_def fs_zip_def args_unzip_def pack_a_def pack_icon_def openZip_def
  extractEntry_def entryPath_def zipPath_of_def unzipTarget_def svgTarget_def extraction_def

theorem extraction_overwrite_witness:
  "lookup (snd (handleUnzip env_zip args_unzip fs_zip)) [''home'', ''u'', ''Downloads'', ''pack'', ''a.txt'']
     = Some (File ''new-a'' 77)
   \<and> lookup (snd (handleUnzip env_zip args_unzip fs_zip))
        [''home'', ''u'', ''Downloads'', ''pack'', ''a_1.txt''] = None
   \<and> lookup (snd (handleUnzipAndMoveSvgs env_zip args_unzip fs_zip))
        [''home'', ''u'', ''Downloads'', ''pack'', ''a.txt''] = Some (File ''new-a'' 77)
   \<and> lookup (snd (handleUnzipAndMoveSvgs env_zip args_unzip fs_zip))
        [''home'', ''u'', docs0, ''Icons'', ''icon.svg''] = Some (File ''<svg/>'' 78)"
proof -
  let ?t = "[''home'', ''u'', ''Downloads'', ''pack'']"
  have tg: "unzipTarget env_zip args_unzip = ?t" "svgTarget env_zip args_unzip = ?t"
    by (simp_all add: zip_eval env_eval path_eval str_eval)
  have ep: "entryPath ?t pack_a = [''home'', ''u'', ''Downloads'', ''pack'', ''a.txt'']"
    "entryPath ?t pack_icon = [''home'', ''u'', ''Downloads'', ''pack'', ''art'', ''icon.svg'']"
    by (simp_all add: zip_eval path_eval)
  have old: "lookup fs_zip (entryPath ?t pack_a) = Some (File ''old-a'' 5)"
    unfolding ep by (simp add: fs_zip_def home0_def)
  have nd: "\<not> isDirectory pack_a" by (simp add: pack_a_def)
  have later: "\<forall>e'\<in>set [pack_icon]. entryPath ?t e' \<noteq> entryPath ?t pack_a"
    by (simp add: ep)
  have oz: "openZip env_zip fs_zip (zipPath_of env_zip args_unzip) = Some ([] @ pack_a # [pack_icon])"
    by (simp add: zip_eval env_eval path_eval str_eval)
  have u: "\<exists>msg. fst (handleUnzip env_zip args_unzip fs_zip) = Inr msg"
    by (simp add: handleUnzip_def zip_eval env_eval path_eval str_eval Let_def)
  then obtain msg where "handleUnzip env_zip args_unzip fs_zip
      = (Inr msg, snd (handleUnzip env_zip args_unzip fs_zip))"
    by (metis prod.collapse)
  from extraction_overwrite[of env_zip args_unzip fs_zip msg "snd (handleUnzip env_zip args_unzip fs_zip)"]
    this
  obtain entries where x: "extraction env_zip fs_zip (zipPath_of env_zip args_unzip) ?t
      = Some (entries, snd (handleUnzip env_zip args_unzip fs_zip), True)"
    unfolding tg by blast
  then have "entries = [] @ pack_a # [pack_icon]"
    using oz by (auto simp: extraction_def split: option.splits)
  with x extraction_overwrite[of env_zip args_unzip fs_zip msg _ "zipPath_of env_zip args_unzip" ?t
      "[]" pack_a "[pack_icon]" "snd (handleUnzip env_zip args_unzip fs_zip)" "''old-a''" 5]
    old nd later
  have 1: "lookup (snd (handleUnzip env_zip args_unzip fs_zip)) (entryPath ?t pack_a)
             = Some (File (edata pack_a) (etime pack_a))"
    by blast
  have 2: "lookup (snd (handleUnzipAndMoveSvgs env_zip args_unzip fs_zip))
        [''home'', ''u'', ''Downloads'', ''pack'', ''a.txt''] = Some (File ''new-a'' 77)"
    and 3: "lookup (snd (handleUnzipAndMoveSvgs env_zip args_unzip fs_zip))
        [''home'', ''u'', docs0, ''Icons'', ''icon.svg''] = Some (File ''<svg/>'' 78)"
    by (simp_all add: handleUnzipAndMoveSvgs_def zip_eval env_eval path_eval str_eval fs_eval
        probe.simps Let_def)
  have 4: "lookup (snd (handleUnzip env_zip args_unzip fs_zip))
        [''home'', ''u'', ''Downloads'', ''pack'', ''a_1.txt''] = None"
    by (simp add: handleUnzip_def zip_eval env_eval path_eval str_eval Let_def)
  from 1 2 3 4 show ?thesis unfolding ep by (simp add: pack_a_def)
qed

end
